theory Spec2Isabelle
  imports Main
begin

section \<open>Text as the scripts see it\<close>

text \<open>
  Both scripts work on Python \<open>str\<close> values. A text is modelled as a \<open>string\<close>; each
  \<open>char\<close> stands for one code point below 256. The four characters the scripts name are
  given short names.
\<close>

abbreviation LF :: char where "LF \<equiv> CHR 0x0A"
abbreviation CR :: char where "CR \<equiv> CHR 0x0D"
abbreviation TAB :: char where "TAB \<equiv> CHR 0x09"
abbreviation SP :: char where "SP \<equiv> CHR 0x20"

text \<open>
  \<open>str.isspace\<close>, which is also the character class \<open>\s\<close> of \<open>re\<close> on \<open>str\<close> patterns and the
  set that \<open>str.strip()\<close> and \<open>str.rstrip()\<close> remove: below 256 these are the code points
  9 to 13, 28 to 32, 0x85 and 0xA0.
\<close>

definition py_isspace :: "char \<Rightarrow> bool" where
  "py_isspace c \<longleftrightarrow>
     c \<in> {TAB, LF, CHR 0x0B, CHR 0x0C, CR, CHR 0x1C, CHR 0x1D, CHR 0x1E, CHR 0x1F, SP,
          CHR 0x85, CHR 0xA0}"

text \<open>The class \<open>[ \t]\<close> of the regular expressions, and the argument of \<open>rstrip(' \t')\<close>.\<close>

definition is_sp_tab :: "char \<Rightarrow> bool" where
  "is_sp_tab c \<longleftrightarrow> c = SP \<or> c = TAB"

text \<open>\<open>s.rstrip(chars)\<close> removes the longest suffix made of characters of \<open>chars\<close>.\<close>

definition rstrip_chars :: "string \<Rightarrow> string \<Rightarrow> string" where
  "rstrip_chars chars s = rev (dropWhile (\<lambda>c. c \<in> set chars) (rev s))"

text \<open>\<open>s.rstrip()\<close>, \<open>s.lstrip()\<close> and \<open>s.strip()\<close> without argument remove white space.\<close>

definition rstrip :: "string \<Rightarrow> string" where
  "rstrip s = rev (dropWhile py_isspace (rev s))"

definition lstrip :: "string \<Rightarrow> string" where
  "lstrip s = dropWhile py_isspace s"

definition strip :: "string \<Rightarrow> string" where
  "strip s = rstrip (lstrip s)"

text \<open>\<open>s.endswith(suffix)\<close> and \<open>s.startswith(prefix)\<close>.\<close>

definition endswith :: "string \<Rightarrow> string \<Rightarrow> bool" where
  "endswith s suffix \<longleftrightarrow>
     length suffix \<le> length s \<and> drop (length s - length suffix) s = suffix"

definition startswith :: "string \<Rightarrow> string \<Rightarrow> bool" where
  "startswith s pre \<longleftrightarrow> take (length pre) s = pre"

text \<open>
  A file opened in text mode with the default \<open>newline=None\<close> is read with universal
  newlines: \<open>\r\n\<close> and a lone \<open>\r\<close> both arrive as \<open>\n\<close>. This is what
  \<open>open(file_path, 'r', encoding='utf-8')\<close> and \<open>Path.read_text\<close> hand to the scripts.
\<close>

fun universal_newlines :: "string \<Rightarrow> string" where
  "universal_newlines [] = []"
| "universal_newlines [c] = (if c = CR then [LF] else [c])"
| "universal_newlines (c # d # cs) =
     (if c = CR \<and> d = LF then LF # universal_newlines cs
      else if c = CR then LF # universal_newlines (d # cs)
      else c # universal_newlines (d # cs))"

text \<open>
  \<open>f.readlines()\<close>: the decoded text cut after every \<open>\n\<close>; each line keeps its terminator,
  and only the last line can be without one.
\<close>

fun readlines :: "string \<Rightarrow> string list" where
  "readlines [] = []"
| "readlines (c # cs) =
     (if c = LF then [LF] # readlines cs
      else (case readlines cs of [] \<Rightarrow> [[c]] | l # ls \<Rightarrow> (c # l) # ls))"

text \<open>\<open>s.split('\n')\<close>: the pieces between the newlines, always at least one piece.\<close>

fun split_lf :: "string \<Rightarrow> string list" where
  "split_lf [] = [[]]"
| "split_lf (c # cs) =
     (if c = LF then [] # split_lf cs
      else (case split_lf cs of [] \<Rightarrow> [[c]] | l # ls \<Rightarrow> (c # l) # ls))"

section \<open>The cleanup transform of \<open>DocumentCleanup.clean_file\<close>\<close>

text \<open>
  The body of the loop over \<open>enumerate(lines, 1)\<close> (lines 139 to 149): strip trailing
  spaces and tabs with \<open>rstrip(' \t')\<close>, then the three-way test on the line ending.
  \<open>n\<close> is \<open>len(lines)\<close>.
\<close>

definition clean_line :: "nat \<Rightarrow> nat \<Rightarrow> string \<Rightarrow> string" where
  "clean_line line_num n line =
     (let cleaned_line = rstrip_chars [SP, TAB] line in
      if endswith cleaned_line [CR, LF] then take (length cleaned_line - 2) cleaned_line @ [LF]
      else if endswith cleaned_line [CR] then take (length cleaned_line - 1) cleaned_line @ [LF]
      else if \<not> endswith cleaned_line [LF] \<and> line_num < n then cleaned_line @ [LF]
      else cleaned_line)"

fun clean_lines :: "nat \<Rightarrow> nat \<Rightarrow> string list \<Rightarrow> string list" where
  "clean_lines line_num n [] = []"
| "clean_lines line_num n (line # rest) =
     clean_line line_num n line # clean_lines (Suc line_num) n rest"

text \<open>
  \<open>re.sub(r'\n{3,}', '\n\n', content)\<close>: scanning from the left, a position where at least
  three newlines start is replaced, together with the whole run (the quantifier is greedy),
  by two newlines; any other character is copied.
\<close>

function sub_newline_runs :: "string \<Rightarrow> string" where
  "sub_newline_runs [] = []"
| "sub_newline_runs (c # cs) =
     (if 3 \<le> length (takeWhile (\<lambda>x. x = LF) (c # cs))
      then [LF, LF] @ sub_newline_runs (dropWhile (\<lambda>x. x = LF) (c # cs))
      else c # sub_newline_runs cs)"
  by pat_completeness auto
termination
proof (relation "measure length")
  fix c :: char and cs :: string
  assume "3 \<le> length (takeWhile (\<lambda>x. x = LF) (c # cs))"
  then have "c = LF" by (auto split: if_splits)
  then have "dropWhile (\<lambda>x. x = LF) (c # cs) = dropWhile (\<lambda>x. x = LF) cs" by simp
  moreover have "length (dropWhile (\<lambda>x. x = LF) cs) \<le> length cs"
    by (rule length_dropWhile_le)
  ultimately show "(dropWhile (\<lambda>x. x = LF) (c # cs), c # cs) \<in> measure length" by simp
qed auto

text \<open>
  \<open>re.sub(r'^[ \t]+$', '', content, flags=re.MULTILINE)\<close>: \<open>^\<close> holds at the start of the
  text and after a newline (\<open>bol\<close>), \<open>[ \t]+\<close> takes the whole run of spaces and tabs, and
  \<open>$\<close> holds at the end of the text and before a newline. A match is deleted; taking fewer
  characters of the run cannot match, since a space or tab would follow.
\<close>

function sub_blank_lines :: "bool \<Rightarrow> string \<Rightarrow> string" where
  "sub_blank_lines bol [] = []"
| "sub_blank_lines bol (c # cs) =
     (let rest = dropWhile is_sp_tab (c # cs) in
      if bol \<and> is_sp_tab c \<and> (case rest of [] \<Rightarrow> True | d # _ \<Rightarrow> d = LF)
      then sub_blank_lines False rest
      else c # sub_blank_lines (c = LF) cs)"
  by pat_completeness auto
termination
proof (relation "measure (\<lambda>(bol, s). length s)")
  fix bol :: bool and c :: char and cs rest :: string
  assume "rest = dropWhile is_sp_tab (c # cs)"
    and "bol \<and> is_sp_tab c \<and> (case rest of [] \<Rightarrow> True | d # _ \<Rightarrow> d = LF)"
  then have "rest = dropWhile is_sp_tab cs" by simp
  moreover have "length (dropWhile is_sp_tab cs) \<le> length cs"
    by (rule length_dropWhile_le)
  ultimately show "((False, rest), (bol, c # cs)) \<in> measure (\<lambda>(bol, s). length s)" by simp
qed auto

text \<open>
  Lines 133 to 163: the cleaned lines are joined, runs of three or more newlines become
  two, lines of spaces and tabs are emptied, and the text is right-stripped and given one
  final newline.
\<close>

definition transform :: "string list \<Rightarrow> string" where
  "transform lines =
     (let cleaned_lines = clean_lines 1 (length lines) lines;
          content = concat cleaned_lines;
          content = sub_newline_runs content;
          content = sub_blank_lines True content
      in rstrip content @ [LF])"

text \<open>
  The transform as a function of the decoded text: \<open>original_content\<close> is \<open>''.join(lines)\<close>,
  which is the decoded text again.
\<close>

definition cleanup :: "string \<Rightarrow> string" where
  "cleanup text = transform (readlines text)"

section \<open>The file system and the console\<close>

text \<open>
  The scripts act on files through \<open>pathlib\<close>, \<open>open\<close> and \<open>shutil\<close>. The state they act on
  is a map from paths to nodes. A regular file has its stored text (before any newline
  translation), or bytes that are not valid UTF-8, and the two permissions of the running
  user. Directories are taken to be writable, and a path is one key: parent directories
  are not tracked.
\<close>

type_synonym path = string

datatype exn =
  FileNotFoundError | FileExistsError | IsADirectoryError | NotADirectoryError
  | PermissionError | SameFileError | UnicodeDecodeError

datatype contents = Text string | Undecodable

record file_node =
  data :: contents
  readable :: bool
  writable :: bool

datatype node = File file_node | Dir

datatype level = Info | Success | Warning | Error | Debug

text \<open>
  One constructor for each message the two scripts print; the wording and the colours of
  the print-out are left out, the values interpolated into it are kept.
\<close>

datatype message =
  FileNotFound path | NotAFile path | Cleaning string | DryRunNoChangesWillBeMade
  | BackupCreated path | CouldNotCreateBackup exn | ProcessingLine nat
  | FileCleaned | BackupSaved path | NoChangesNeeded
  | ErrorCleaningFile path exn | RestoredFromBackup
  | CleaningFiles | CleanedFiles nat nat | AutoCleaningUp | BackupFilesCleanedUp
  | BackupsStoredIn path | DryRunNoChangesWereMade
  | CannotReadFile path exn | Validating string | TrailingWhitespaceFound
  | MultipleBlankLinesFound | HeadingLevelSkipped nat string | UnclosedCodeBlockFound
  | FileShouldEndWithNewline | FileIsEmpty | FileShouldStartWithHeader
  | Valid | WarningCount nat | ErrorAndWarningCount nat nat

datatype console_line = Logged level message | EmptyLine

text \<open>
  \<open>clock k\<close> is what the \<open>k\<close>-th call of
  \<open>datetime.now().strftime("%Y%m%d_%H%M%S")\<close> returns; \<open>ticks\<close> counts the calls made.
\<close>

record world =
  fs :: "path \<rightharpoonup> node"
  clock :: "nat \<Rightarrow> string"
  ticks :: nat
  console :: "console_line list"

text \<open>
  \<open>self.log(message, level)\<close>: prints unless the level is debug and \<open>self.debug\<close> is off.
  The model is of a run without \<open>--debug\<close>.
\<close>

definition log :: "world \<Rightarrow> message \<Rightarrow> level \<Rightarrow> world" where
  "log w m lv = (if lv = Debug then w else w\<lparr>console := console w @ [Logged lv m]\<rparr>)"

text \<open>A bare \<open>print()\<close>.\<close>

definition print_empty :: "world \<Rightarrow> world" where
  "print_empty w = w\<lparr>console := console w @ [EmptyLine]\<rparr>"

definition exists :: "world \<Rightarrow> path \<Rightarrow> bool" where
  "exists w p \<longleftrightarrow> fs w p \<noteq> None"

definition is_file :: "world \<Rightarrow> path \<Rightarrow> bool" where
  "is_file w p \<longleftrightarrow> (case fs w p of Some (File f) \<Rightarrow> True | _ \<Rightarrow> False)"

text \<open>\<open>Path.name\<close>: the last component of the path.\<close>

definition name :: "path \<Rightarrow> string" where
  "name p = rev (takeWhile (\<lambda>c. c \<noteq> CHR ''/'') (rev p))"

text \<open>
  \<open>Path.mkdir(exist_ok=True)\<close>: nothing to do for a directory, \<open>FileExistsError\<close> when the
  path exists and is not a directory.
\<close>

definition mkdir :: "world \<Rightarrow> path \<Rightarrow> (exn + unit) \<times> world" where
  "mkdir w d =
     (case fs w d of
        Some Dir \<Rightarrow> (Inr (), w)
      | Some (File f) \<Rightarrow> (Inl FileExistsError, w)
      | None \<Rightarrow> (Inr (), w\<lparr>fs := (fs w)(d \<mapsto> Dir)\<rparr>))"

text \<open>
  \<open>shutil.copy2(src, dst)\<close>: a destination that is a directory stands for the file of
  the source's name inside it; copying a file onto itself raises \<open>SameFileError\<close>; the
  source is opened for reading, then the destination for writing; content and mode are
  copied.
\<close>

definition copy2 :: "world \<Rightarrow> path \<Rightarrow> path \<Rightarrow> (exn + unit) \<times> world" where
  "copy2 w src dst0 =
     (let dst = (if fs w dst0 = Some Dir then dst0 @ ''/'' @ name src else dst0) in
      if fs w src \<noteq> None \<and> src = dst then (Inl SameFileError, w)
      else
        (case fs w src of
           None \<Rightarrow> (Inl FileNotFoundError, w)
         | Some Dir \<Rightarrow> (Inl IsADirectoryError, w)
         | Some (File f) \<Rightarrow>
             if \<not> readable f then (Inl PermissionError, w)
             else
               (case fs w dst of
                  Some Dir \<Rightarrow> (Inl IsADirectoryError, w)
                | Some (File g) \<Rightarrow>
                    if writable g then (Inr (), w\<lparr>fs := (fs w)(dst \<mapsto> File f)\<rparr>)
                    else (Inl PermissionError, w)
                | None \<Rightarrow> (Inr (), w\<lparr>fs := (fs w)(dst \<mapsto> File f)\<rparr>))))"

text \<open>
  \<open>with open(file_path, 'r', encoding='utf-8') as f: lines = f.readlines()\<close>.
\<close>

definition read_lines :: "world \<Rightarrow> path \<Rightarrow> exn + string list" where
  "read_lines w p =
     (case fs w p of
        None \<Rightarrow> Inl FileNotFoundError
      | Some Dir \<Rightarrow> Inl IsADirectoryError
      | Some (File f) \<Rightarrow>
          if \<not> readable f then Inl PermissionError
          else (case data f of
                  Undecodable \<Rightarrow> Inl UnicodeDecodeError
                | Text s \<Rightarrow> Inr (readlines (universal_newlines s))))"

text \<open>\<open>Path.read_text(encoding='utf-8')\<close>: the same decoding, the text in one piece.\<close>

definition read_text :: "world \<Rightarrow> path \<Rightarrow> exn + string" where
  "read_text w p =
     (case fs w p of
        None \<Rightarrow> Inl FileNotFoundError
      | Some Dir \<Rightarrow> Inl IsADirectoryError
      | Some (File f) \<Rightarrow>
          if \<not> readable f then Inl PermissionError
          else (case data f of
                  Undecodable \<Rightarrow> Inl UnicodeDecodeError
                | Text s \<Rightarrow> Inr (universal_newlines s)))"

text \<open>
  \<open>with open(file_path, 'w', encoding='utf-8') as f: f.write(content)\<close>, on a system
  whose line separator is \<open>\n\<close>, so that the text is stored as it is.
\<close>

definition write_text :: "world \<Rightarrow> path \<Rightarrow> string \<Rightarrow> (exn + unit) \<times> world" where
  "write_text w p content =
     (case fs w p of
        Some Dir \<Rightarrow> (Inl IsADirectoryError, w)
      | Some (File f) \<Rightarrow>
          if writable f then (Inr (), w\<lparr>fs := (fs w)(p \<mapsto> File (f\<lparr>data := Text content\<rparr>))\<rparr>)
          else (Inl PermissionError, w)
      | None \<Rightarrow>
          (Inr (), w\<lparr>fs := (fs w)(p \<mapsto>
             File \<lparr>data = Text content, readable = True, writable = True\<rparr>)\<rparr>))"

text \<open>\<open>Path.unlink()\<close>.\<close>

definition unlink :: "world \<Rightarrow> path \<Rightarrow> (exn + unit) \<times> world" where
  "unlink w p =
     (case fs w p of
        None \<Rightarrow> (Inl FileNotFoundError, w)
      | Some Dir \<Rightarrow> (Inl IsADirectoryError, w)
      | Some (File f) \<Rightarrow> (Inr (), w\<lparr>fs := (fs w)(p := None)\<rparr>))"

text \<open>\<open>shutil.rmtree(d)\<close>: the directory and everything below it.\<close>

definition rmtree :: "world \<Rightarrow> path \<Rightarrow> (exn + unit) \<times> world" where
  "rmtree w d =
     (case fs w d of
        None \<Rightarrow> (Inl FileNotFoundError, w)
      | Some (File f) \<Rightarrow> (Inl NotADirectoryError, w)
      | Some Dir \<Rightarrow>
          (Inr (), w\<lparr>fs := (\<lambda>q. if q = d \<or> startswith q (d @ ''/'') then None else fs w q)\<rparr>))"

section \<open>\<open>DocumentCleanup\<close>: backup, clean one file, clean all\<close>

definition backup_dir :: path where
  "backup_dir = ''.document-backups''"

text \<open>
  \<open>create_backup\<close> (lines 92 to 104). The \<open>mkdir\<close> stands before the \<open>try\<close>, so what it
  raises leaves the function; what the copy raises is caught, logged as a warning, and
  answered with \<open>None\<close>.
\<close>

definition create_backup :: "world \<Rightarrow> path \<Rightarrow> (exn + path option) \<times> world" where
  "create_backup w file_path =
     (case mkdir w backup_dir of
        (Inl e, w1) \<Rightarrow> (Inl e, w1)
      | (Inr u, w1) \<Rightarrow>
          (let timestamp = clock w1 (ticks w1);
               w2 = w1\<lparr>ticks := Suc (ticks w1)\<rparr>;
               backup_path = backup_dir @ ''/'' @ name file_path @ ''.'' @ timestamp @ ''.backup''
           in case copy2 w2 file_path backup_path of
                (Inr u, w3) \<Rightarrow> (Inr (Some backup_path), log w3 (BackupCreated backup_path) Debug)
              | (Inl e, w3) \<Rightarrow> (Inr None, log w3 (CouldNotCreateBackup e) Warning)))"

text \<open>
  The \<open>try\<close> block of \<open>clean_file\<close> (lines 128 to 177): read, transform, compare, then
  write or drop the backup. The debug message per line prints nothing here.
\<close>

definition clean_file_try :: "world \<Rightarrow> path \<Rightarrow> path option \<Rightarrow> (exn + bool) \<times> world" where
  "clean_file_try w file_path backup_path =
     (case read_lines w file_path of
        Inl e \<Rightarrow> (Inl e, w)
      | Inr lines \<Rightarrow>
          (let original_content = concat lines;
               content = transform lines
           in if content \<noteq> original_content then
                (case write_text w file_path content of
                   (Inl e, w1) \<Rightarrow> (Inl e, w1)
                 | (Inr u, w1) \<Rightarrow>
                     (let w2 = log w1 FileCleaned Success
                      in (Inr True,
                          case backup_path of
                            Some bp \<Rightarrow> log w2 (BackupSaved bp) Info
                          | None \<Rightarrow> w2)))
              else
                (let w1 = log w NoChangesNeeded Info
                 in case backup_path of
                      Some bp \<Rightarrow>
                        (case unlink w1 bp of
                           (Inl e, w2) \<Rightarrow> (Inl e, w2)
                         | (Inr u, w2) \<Rightarrow> (Inr True, w2))
                    | None \<Rightarrow> (Inr True, w1))))"

text \<open>
  \<open>clean_file\<close> (lines 106 to 185). The result is the returned boolean, or the
  exception that leaves the function: one raised by \<open>create_backup\<close>, which is called
  before the \<open>try\<close>, or one raised by the restoring copy inside the \<open>except\<close> clause.
\<close>

definition clean_file :: "world \<Rightarrow> path \<Rightarrow> bool \<Rightarrow> bool \<Rightarrow> (exn + bool) \<times> world" where
  "clean_file w file_path do_backup dry_run =
     (if \<not> exists w file_path then (Inr False, log w (FileNotFound file_path) Error)
      else if \<not> is_file w file_path then (Inr False, log w (NotAFile file_path) Error)
      else
        (let w1 = log w (Cleaning (name file_path)) Info
         in if dry_run then (Inr True, log w1 DryRunNoChangesWillBeMade Info)
            else
              (case (if do_backup then create_backup w1 file_path else (Inr None, w1)) of
                 (Inl e, w2) \<Rightarrow> (Inl e, w2)
               | (Inr backup_path, w2) \<Rightarrow>
                   (case clean_file_try w2 file_path backup_path of
                      (Inr r, w3) \<Rightarrow> (Inr r, w3)
                    | (Inl e, w3) \<Rightarrow>
                        (let w4 = log w3 (ErrorCleaningFile file_path e) Error
                         in case backup_path of
                              None \<Rightarrow> (Inr False, w4)
                            | Some bp \<Rightarrow>
                                if exists w4 bp then
                                  (case copy2 w4 bp file_path of
                                     (Inl e', w5) \<Rightarrow> (Inl e', w5)
                                   | (Inr u, w5) \<Rightarrow>
                                       (Inr False, log w5 RestoredFromBackup Warning))
                                else (Inr False, w4))))))"

text \<open>
  The loop of \<open>clean_all\<close> (lines 194 to 198). There is no \<open>try\<close> around the call of
  \<open>clean_file\<close>: an exception that leaves it ends the loop.
\<close>

fun clean_all_loop ::
  "world \<Rightarrow> path list \<Rightarrow> bool \<Rightarrow> bool \<Rightarrow> nat \<Rightarrow> (exn + nat) \<times> world" where
  "clean_all_loop w [] do_backup dry_run success_count = (Inr success_count, w)"
| "clean_all_loop w (file_path # files) do_backup dry_run success_count =
     (case clean_file w file_path do_backup dry_run of
        (Inl e, w1) \<Rightarrow> (Inl e, w1)
      | (Inr ok, w1) \<Rightarrow>
          clean_all_loop (print_empty w1) files do_backup dry_run
            (if ok then Suc success_count else success_count))"

text \<open>\<open>clean_all\<close> (lines 187 to 212).\<close>

definition clean_all ::
  "world \<Rightarrow> path list \<Rightarrow> bool \<Rightarrow> bool \<Rightarrow> bool \<Rightarrow> (exn + bool) \<times> world" where
  "clean_all w files do_backup dry_run auto_cleanup =
     (let w0 = log w CleaningFiles Info
      in case (if do_backup \<and> \<not> dry_run then mkdir w0 backup_dir else (Inr (), w0)) of
           (Inl e, w1) \<Rightarrow> (Inl e, w1)
         | (Inr u, w1) \<Rightarrow>
             (case clean_all_loop w1 files do_backup dry_run 0 of
                (Inl e, w2) \<Rightarrow> (Inl e, w2)
              | (Inr success_count, w2) \<Rightarrow>
                  if \<not> dry_run then
                    (let w3 = log w2 (CleanedFiles success_count (length files)) Success
                     in if auto_cleanup \<and> exists w3 backup_dir then
                          (case rmtree (log w3 AutoCleaningUp Info) backup_dir of
                             (Inl e, w4) \<Rightarrow> (Inl e, w4)
                           | (Inr u, w4) \<Rightarrow>
                               (Inr (success_count = length files),
                                log w4 BackupFilesCleanedUp Success))
                        else if exists w3 backup_dir then
                          (Inr (success_count = length files),
                           log w3 (BackupsStoredIn backup_dir) Info)
                        else (Inr (success_count = length files), w3))
                  else (Inr (success_count = length files),
                        log w2 DryRunNoChangesWereMade Info)))"

section \<open>\<open>MarkdownManager.validate_file\<close>\<close>

text \<open>
  Check 1, \<open>re.search(r'[ \t]+$', content, re.MULTILINE)\<close>: some position starts a run
  of spaces and tabs that reaches the end of the text or a newline.
\<close>

fun search_trailing_ws :: "string \<Rightarrow> bool" where
  "search_trailing_ws [] = False"
| "search_trailing_ws (c # cs) =
     ((is_sp_tab c \<and> (case dropWhile is_sp_tab cs of [] \<Rightarrow> True | d # ds \<Rightarrow> d = LF))
      \<or> search_trailing_ws cs)"

text \<open>
  Check 2, \<open>re.search(r'\n\s*\n\s*\n\s*\n', content)\<close>. \<open>match_ws_lf k s\<close> says that
  \<open>(\s*\n){k}\<close> matches at the start of \<open>s\<close>: the next character is taken by \<open>\n\<close>, or
  it is white space taken by \<open>\s*\<close>; backtracking tries both.
\<close>

fun match_ws_lf :: "nat \<Rightarrow> string \<Rightarrow> bool" where
  "match_ws_lf 0 s = True"
| "match_ws_lf (Suc k) [] = False"
| "match_ws_lf (Suc k) (c # cs) =
     ((c = LF \<and> match_ws_lf k cs) \<or> (py_isspace c \<and> match_ws_lf (Suc k) cs))"

fun search_blank_lines :: "string \<Rightarrow> bool" where
  "search_blank_lines [] = False"
| "search_blank_lines (c # cs) = ((c = LF \<and> match_ws_lf 3 cs) \<or> search_blank_lines cs)"

text \<open>
  Check 3, \<open>re.match(r'^(#+)\s+', line)\<close> and \<open>len(heading_match.group(1))\<close>: the line
  starts with one or more \<open>#\<close> followed by white space; the level is the number of \<open>#\<close>.
\<close>

definition heading_level :: "string \<Rightarrow> nat option" where
  "heading_level line =
     (let hashes = takeWhile (\<lambda>c. c = CHR ''#'') line in
      case dropWhile (\<lambda>c. c = CHR ''#'') line of
        [] \<Rightarrow> None
      | d # ds \<Rightarrow> if hashes \<noteq> [] \<and> py_isspace d then Some (length hashes) else None)"

text \<open>
  The loop of check 3 (lines 103 to 111) over \<open>enumerate(content.split('\n'), 1)\<close>, with
  its three variables: the line number, \<open>prev_level\<close> and \<open>errors\<close>.
\<close>

fun heading_loop :: "world \<Rightarrow> nat \<Rightarrow> nat \<Rightarrow> nat \<Rightarrow> string list \<Rightarrow> nat \<times> world" where
  "heading_loop w line_num prev_level errors [] = (errors, w)"
| "heading_loop w line_num prev_level errors (line # rest) =
     (case heading_level line of
        Some current_level \<Rightarrow>
          if current_level > prev_level + 1 then
            heading_loop (log w (HeadingLevelSkipped line_num (strip line)) Error)
              (Suc line_num) current_level (errors + 1) rest
          else heading_loop w (Suc line_num) current_level errors rest
      | None \<Rightarrow> heading_loop w (Suc line_num) prev_level errors rest)"

text \<open>
  Check 4, \<open>len(re.findall(r'^```', content, re.MULTILINE))\<close>: the line starts (\<open>bol\<close>)
  that are followed by three backquotes.
\<close>

fun count_fences :: "bool \<Rightarrow> string \<Rightarrow> nat" where
  "count_fences bol [] = 0"
| "count_fences bol (c # cs) =
     (if bol \<and> startswith (c # cs) (replicate 3 (CHR 0x60)) then 1 else 0)
     + count_fences (c = LF) cs"

text \<open>The seven checks and the report (lines 90 to 142), on the text that was read.\<close>

definition validate_content :: "world \<Rightarrow> string \<Rightarrow> (nat \<times> nat) \<times> world" where
  "validate_content w0 content =
     (let errors = 0; warnings = 0;
          (errors, w1) =
            (if search_trailing_ws content
             then (errors + 1, log w0 TrailingWhitespaceFound Error) else (errors, w0));
          (errors, w2) =
            (if search_blank_lines content
             then (errors + 1, log w1 MultipleBlankLinesFound Error) else (errors, w1));
          (errors, w3) = heading_loop w2 1 0 errors (split_lf content);
          code_blocks = count_fences True content;
          (errors, w4) =
            (if code_blocks > 0 \<and> code_blocks mod 2 \<noteq> 0
             then (errors + 1, log w3 UnclosedCodeBlockFound Error) else (errors, w3));
          (warnings, w5) =
            (if content \<noteq> [] \<and> \<not> endswith content [LF]
             then (warnings + 1, log w4 FileShouldEndWithNewline Warning) else (warnings, w4));
          (errors, w6) =
            (if strip content = []
             then (errors + 1, log w5 FileIsEmpty Error) else (errors, w5));
          (warnings, w7) =
            (if strip content \<noteq> [] \<and> \<not> startswith (strip content) ''#''
             then (warnings + 1, log w6 FileShouldStartWithHeader Warning) else (warnings, w6));
          w8 =
            (if errors = 0 \<and> warnings = 0 then log w7 Valid Success
             else if errors = 0 then log w7 (WarningCount warnings) Warning
             else log w7 (ErrorAndWarningCount errors warnings) Error)
      in ((errors, warnings), w8))"

text \<open>\<open>validate_file\<close> (lines 71 to 142); the result is \<open>(errors, warnings)\<close>.\<close>

definition validate_file :: "world \<Rightarrow> path \<Rightarrow> (nat \<times> nat) \<times> world" where
  "validate_file w file_path =
     (if \<not> exists w file_path then ((1, 0), log w (FileNotFound file_path) Error)
      else if \<not> is_file w file_path then ((1, 0), log w (NotAFile file_path) Error)
      else
        (case read_text w file_path of
           Inl e \<Rightarrow> ((1, 0), log w (CannotReadFile file_path e) Error)
         | Inr content \<Rightarrow>
             validate_content (log w (Validating (name file_path)) Info) content))"

section \<open>Notions used to state the properties\<close>

text \<open>The heading lines of a text, each with its line number and its level.\<close>

fun headings_from :: "nat \<Rightarrow> string list \<Rightarrow> (nat \<times> nat) list" where
  "headings_from i [] = []"
| "headings_from i (l # ls) =
     (case heading_level l of Some k \<Rightarrow> [(i, k)] | None \<Rightarrow> []) @ headings_from (Suc i) ls"

definition headings :: "string \<Rightarrow> (nat \<times> nat) list" where
  "headings content = headings_from 1 (split_lf content)"

text \<open>
  The headings that exceed the level before them by more than one, the level before the
  first heading being \<open>prev\<close>.
\<close>

fun skips :: "nat \<Rightarrow> (nat \<times> nat) list \<Rightarrow> nat list" where
  "skips prev [] = []"
| "skips prev ((i, k) # hs) = (if k > prev + 1 then [i] else []) @ skips k hs"

text \<open>The line numbers of the heading-skip findings on a console.\<close>

fun skip_line :: "console_line \<Rightarrow> nat list" where
  "skip_line (Logged lv (HeadingLevelSkipped n s)) = [n]"
| "skip_line l = []"

definition skipped_lines :: "console_line list \<Rightarrow> nat list" where
  "skipped_lines ls = concat (map skip_line ls)"

text \<open>
  The path that \<open>create_backup\<close> gives to the backup of \<open>file_path\<close> when it is called in
  the world \<open>w\<close> (line 96).
\<close>

definition backup_path_of :: "world \<Rightarrow> path \<Rightarrow> path" where
  "backup_path_of w file_path =
     backup_dir @ ''/'' @ name file_path @ ''.'' @ clock w (ticks w) @ ''.backup''"

text \<open>
  Worlds for the examples: the given nodes, an empty console, and a clock that stands at
  noon on 1 January 2025. A plain file can be read and written by the user; a read-only
  file (mode 0444, say) can only be read.
\<close>

definition world_of :: "(path \<rightharpoonup> node) \<Rightarrow> world" where
  "world_of m = \<lparr>fs = m, clock = (\<lambda>k. ''20250101_120000''), ticks = 0, console = []\<rparr>"

definition plain_file :: "string \<Rightarrow> node" where
  "plain_file s = File \<lparr>data = Text s, readable = True, writable = True\<rparr>"

definition read_only_file :: "string \<Rightarrow> node" where
  "read_only_file s = File \<lparr>data = Text s, readable = True, writable = False\<rparr>"

section \<open>Properties\<close>

lemmas text_defs =
  cleanup_def transform_def clean_line_def rstrip_chars_def endswith_def rstrip_def
  py_isspace_def is_sp_tab_def

lemmas fs_defs =
  world_of_def plain_file_def read_only_file_def clean_file_def clean_file_try_def
  create_backup_def mkdir_def copy2_def read_lines_def write_text_def unlink_def
  exists_def is_file_def log_def name_def backup_dir_def

lemma concat_readlines: "concat (readlines s) = s"
  by (induction s) (auto split: list.splits)

subsection \<open>The cleanup transform\<close>

text \<open>
  Claim C1 says that the transform is idempotent: \<open>cleanup (cleanup C) = cleanup C\<close> for
  every text \<open>C\<close>. On the text \<open>a\n \n\nb\<close> it is not. \<open>rstrip(' \t')\<close> leaves the line
  \<open>" \n"\<close> as it is, because the line ends with its newline; no run of three newlines
  exists yet when the runs are collapsed; then the line of one space is emptied, which
  makes a run of three newlines, and that run is collapsed only by the next pass.
\<close>

theorem cleanup_not_idempotent:
  "cleanup (''a'' @ [LF, SP, LF, LF] @ ''b'') = ''a'' @ [LF, LF, LF] @ ''b'' @ [LF] \<and>
   cleanup (cleanup (''a'' @ [LF, SP, LF, LF] @ ''b'')) = ''a'' @ [LF, LF] @ ''b'' @ [LF] \<and>
   cleanup (cleanup (''a'' @ [LF, SP, LF, LF] @ ''b'')) \<noteq> cleanup (''a'' @ [LF, SP, LF, LF] @ ''b'')"
  by (simp add: text_defs)

text \<open>
  Claim C2 says that a cleaned line has no space or tab before its terminator. The line
  \<open>"a  \n"\<close>, first of two lines, comes out of the loop with its two spaces, and so does
  the whole text \<open>a  \nb\n\<close> out of the transform: \<open>rstrip(' \t')\<close> stops at the newline
  that ends the line.
\<close>

theorem trailing_blanks_survive_before_newline:
  "clean_line 1 2 (''a  '' @ [LF]) = ''a  '' @ [LF] \<and>
   clean_lines 1 2 (readlines (''a  '' @ [LF] @ ''b'' @ [LF])) = [''a  '' @ [LF], ''b'' @ [LF]] \<and>
   cleanup (''a  '' @ [LF] @ ''b'' @ [LF]) = ''a  '' @ [LF] @ ''b'' @ [LF] \<and>
   (let w = world_of [''a.txt'' \<mapsto> plain_file (''a  '' @ [LF] @ ''b'' @ [LF])];
        r = clean_file w ''a.txt'' False False
    in fst r = Inr True \<and>
       fs (snd r) ''a.txt'' = Some (plain_file (''a  '' @ [LF] @ ''b'' @ [LF])) \<and>
       console (snd r) = [Logged Info (Cleaning ''a.txt''), Logged Info NoChangesNeeded])"
  by (simp add: fs_defs text_defs Let_def)

text \<open>
  Claim C3 gives the output for the stored text \<open>Line1   \nLine2\r\n\n\n\nLine3\<close> as
  \<open>Line1\nLine2\n\nLine3\n\<close>. The text is read with universal newlines and transformed
  into \<open>Line1   \nLine2\n\nLine3\n\<close>: the three spaces after \<open>Line1\<close> stay.
\<close>

theorem end_to_end_example_output:
  "cleanup (universal_newlines
      (''Line1   '' @ [LF] @ ''Line2'' @ [CR, LF, LF, LF, LF] @ ''Line3''))
   = ''Line1   '' @ [LF] @ ''Line2'' @ [LF, LF] @ ''Line3'' @ [LF] \<and>
   cleanup (universal_newlines
      (''Line1   '' @ [LF] @ ''Line2'' @ [CR, LF, LF, LF, LF] @ ''Line3''))
   \<noteq> ''Line1'' @ [LF] @ ''Line2'' @ [LF, LF] @ ''Line3'' @ [LF] \<and>
   (let w = world_of [''doc.txt'' \<mapsto>
              plain_file (''Line1   '' @ [LF] @ ''Line2'' @ [CR, LF, LF, LF, LF] @ ''Line3'')];
        r = clean_file w ''doc.txt'' False False
    in fst r = Inr True \<and>
       fs (snd r) ''doc.txt''
         = Some (plain_file (''Line1   '' @ [LF] @ ''Line2'' @ [LF, LF] @ ''Line3'' @ [LF])))"
  by (simp add: fs_defs text_defs Let_def)

subsection \<open>Cleaning files\<close>

text \<open>
  Claim C4 says that a failure inside \<open>clean_file\<close> makes it return \<open>False\<close> and never ends
  the batch. \<open>notes.txt\<close> is read-only and ends in two spaces. The backup is made, the
  write raises \<open>PermissionError\<close>, the \<open>except\<close> clause copies the backup back onto the
  file, and that copy raises \<open>PermissionError\<close> again, inside the handler. The exception
  leaves \<open>clean_file\<close> and \<open>clean_all\<close>, and \<open>todo.txt\<close>, next in the list, is not cleaned.
\<close>

theorem restore_failure_aborts_batch:
  "(let w = world_of [''notes.txt'' \<mapsto> read_only_file ''x  '',
                      ''todo.txt'' \<mapsto> plain_file ''y  ''];
        r = clean_file w ''notes.txt'' True False;
        ra = clean_all w [''notes.txt'', ''todo.txt''] True False False
    in fst r = Inl PermissionError \<and> fst ra = Inl PermissionError \<and>
       fs (snd ra) ''notes.txt'' = Some (read_only_file ''x  '') \<and>
       fs (snd ra) ''todo.txt'' = Some (plain_file ''y  ''))"
  by (simp add: fs_defs text_defs clean_all_def Let_def)

text \<open>
  Claim C6 says that after a successful pass the stored file has no \<open>\r\<close> left as a line
  terminator. A file that stores \<open>a\r\nb\r\n\<close> is read as \<open>a\nb\n\<close>, the transform returns
  the same text, the comparison finds no change, and nothing is written: the pass
  succeeds and the file keeps both \<open>\r\n\<close>.
\<close>

theorem crlf_only_file_left_unchanged:
  "(let w = world_of [''a.txt'' \<mapsto> plain_file (''a'' @ [CR, LF] @ ''b'' @ [CR, LF])];
        r = clean_file w ''a.txt'' True False
    in fst r = Inr True \<and>
       fs (snd r) ''a.txt'' = Some (plain_file (''a'' @ [CR, LF] @ ''b'' @ [CR, LF])) \<and>
       console (snd r) = [Logged Info (Cleaning ''a.txt''), Logged Info NoChangesNeeded])"
  by (simp add: fs_defs text_defs Let_def)

text \<open>
  Claim C7 says that \<open>create_backup\<close> never raises, also when the backup directory cannot
  be created. Where \<open>.document-backups\<close> is a regular file, \<open>mkdir(exist_ok=True)\<close> raises
  \<open>FileExistsError\<close>; the call stands before the \<open>try\<close>, so the exception leaves
  \<open>create_backup\<close> with no warning logged, and leaves \<open>clean_file\<close> as well.
\<close>

theorem create_backup_raises_on_mkdir:
  "(let w = world_of [''a.txt'' \<mapsto> plain_file ''a'', backup_dir \<mapsto> plain_file ''''];
        r = create_backup w ''a.txt''
    in fst r = Inl FileExistsError \<and> console (snd r) = [] \<and>
       fst (clean_file w ''a.txt'' True False) = Inl FileExistsError)"
  by (simp add: fs_defs text_defs Let_def)

subsection \<open>Frame lemmas for the file operations\<close>

lemma log_simps [simp]:
  "fs (log w m lv) = fs w" "clock (log w m lv) = clock w" "ticks (log w m lv) = ticks w"
  by (simp_all add: log_def)

lemma is_file_log [simp]: "is_file (log w m lv) p = is_file w p"
  by (simp add: is_file_def)

lemma backup_path_of_log [simp]: "backup_path_of (log w m lv) p = backup_path_of w p"
  by (simp add: backup_path_of_def)

lemma backup_path_not_dir: "backup_path_of w p \<noteq> backup_dir"
  by (simp add: backup_path_of_def)

lemma read_lines_Inr:
  assumes "read_lines w p = Inr lines"
  obtains f s where "fs w p = Some (File f)" "readable f" "data f = Text s"
    "lines = readlines (universal_newlines s)"
  using assms
  by (auto simp: read_lines_def split: option.splits node.splits if_splits contents.splits)

lemma read_lines_same: "fs w' p = fs w p \<Longrightarrow> read_lines w' p = read_lines w p"
  by (simp add: read_lines_def)

text \<open>
  What \<open>create_backup\<close> does when the directory can be made and the backup path is not
  itself a directory: it returns, the file is untouched, and a backup that was made sits
  at the backup path with the file's content.
\<close>

lemma create_backup_effect:
  assumes "fs w p = Some (File f)" and "\<not> is_file w backup_dir"
    and "fs w (backup_path_of w p) \<noteq> Some Dir"
    and "create_backup w p = (r, w')"
  shows "(\<exists>b. r = Inr b \<and>
            (b = None \<or> b = Some (backup_path_of w p) \<and>
               fs w' (backup_path_of w p) = Some (File f) \<and> backup_path_of w p \<noteq> p))
         \<and> fs w' p = fs w p
         \<and> (\<forall>q. q \<noteq> backup_dir \<longrightarrow> q \<noteq> backup_path_of w p \<longrightarrow> fs w' q = fs w q)"
  using assms backup_path_not_dir[of w p]
  unfolding create_backup_def mkdir_def copy2_def is_file_def log_def backup_path_of_def Let_def
  by (auto split: option.splits node.splits if_splits)

lemma create_backup_keeps:
  assumes "fs w p = Some (File f)" and "\<not> is_file w backup_dir"
    and "create_backup w p = (r, w')"
  shows "(\<exists>b. r = Inr b) \<and> fs w' p = fs w p"
  using assms
  unfolding create_backup_def mkdir_def copy2_def is_file_def log_def Let_def
  by (auto split: option.splits node.splits if_splits)

lemma clean_file_try_noop:
  assumes "read_lines w p = Inr lines" and "transform lines = concat lines"
    and "b = None \<or> (\<exists>g. fs w bp = Some (File g)) \<and> b = Some bp \<and> bp \<noteq> p"
    and "clean_file_try w p b = (r, w')"
  shows "r = Inr True \<and> fs w' p = fs w p \<and>
         console w' = console w @ [Logged Info NoChangesNeeded] \<and>
         (b = Some bp \<longrightarrow> fs w' bp = None) \<and> (\<forall>q. q \<noteq> bp \<longrightarrow> fs w' q = fs w q)"
  using assms
  unfolding clean_file_try_def unlink_def log_def Let_def
  by (auto split: option.splits node.splits if_splits)

lemma transform_Nil: "transform [] = [LF]"
  by (simp add: text_defs)

lemma clean_file_try_empty:
  assumes "fs w p = Some (File f)" "data f = Text []" "readable f" "writable f"
  shows "fst (clean_file_try w p b) = Inr True \<and>
         fs (snd (clean_file_try w p b)) p = Some (File (f\<lparr>data := Text [LF]\<rparr>)) \<and>
         Logged Success FileCleaned \<in> set (console (snd (clean_file_try w p b)))"
  using assms
  by (cases b)
    (simp_all add: clean_file_try_def read_lines_def write_text_def transform_Nil log_def)

text \<open>
  \<open>clean_file\<close> on an existing regular file, not a dry run, when the backup step returns
  and the \<open>try\<close> block ends without an exception.
\<close>

lemma clean_file_steps:
  assumes "exists w p" and "is_file w p"
    and "(if do_backup then create_backup (log w (Cleaning (name p)) Info) p
          else (Inr None, log w (Cleaning (name p)) Info)) = (Inr b, wb)"
    and "fst (clean_file_try wb p b) = Inr x"
  shows "clean_file w p do_backup False = (Inr x, snd (clean_file_try wb p b))"
  using assms by (cases "clean_file_try wb p b") (simp add: clean_file_def Let_def)

text \<open>
  Claim C5, no-op detection: when the transformed content equals the content that was
  read, \<open>clean_file\<close> returns \<open>True\<close>, leaves the file as it is, ends its report with
  "No changes needed", and a backup that \<open>create_backup\<close> made for this call is gone
  afterwards. Nothing but the backup directory and the backup path can differ from before.
  The backup step is taken to return: \<open>.document-backups\<close> is not a regular file, and the
  backup path is not a directory.
\<close>

theorem no_op_detection:
  assumes "read_lines w file_path = Inr lines"
    and "transform lines = concat lines"
    and "do_backup \<longrightarrow>
           \<not> is_file w backup_dir \<and> fs w (backup_path_of w file_path) \<noteq> Some Dir"
  shows "fst (clean_file w file_path do_backup False) = Inr True \<and>
         fs (snd (clean_file w file_path do_backup False)) file_path = fs w file_path \<and>
         last (console (snd (clean_file w file_path do_backup False)))
           = Logged Info NoChangesNeeded \<and>
         (do_backup \<longrightarrow>
            (\<forall>bp. fst (create_backup (log w (Cleaning (name file_path)) Info) file_path)
                    = Inr (Some bp) \<longrightarrow>
                  fs (snd (clean_file w file_path do_backup False)) bp = None)) \<and>
         (\<forall>q. q \<noteq> backup_dir \<longrightarrow> q \<noteq> backup_path_of w file_path \<longrightarrow>
              fs (snd (clean_file w file_path do_backup False)) q = fs w q)"
proof -
  let ?w1 = "log w (Cleaning (name file_path)) Info"
  let ?bp = "backup_path_of w file_path"
  from assms(1) obtain f s where f: "fs w file_path = Some (File f)"
    by (rule read_lines_Inr)
  then have ex: "exists w file_path" "is_file w file_path"
    by (simp_all add: exists_def is_file_def)
  have rd1: "read_lines ?w1 file_path = Inr lines"
    using assms(1) read_lines_same[of ?w1 file_path w] by simp
  show ?thesis
  proof (cases do_backup)
    case False
    obtain rt wt where tr: "clean_file_try ?w1 file_path None = (rt, wt)"
      by (cases "clean_file_try ?w1 file_path None")
    have nb: "None = None \<or>
        (\<exists>g. fs ?w1 ?bp = Some (File g)) \<and> None = Some ?bp \<and> ?bp \<noteq> file_path"
      by simp
    have t: "rt = Inr True \<and> fs wt file_path = fs ?w1 file_path \<and>
        console wt = console ?w1 @ [Logged Info NoChangesNeeded] \<and>
        (None = Some ?bp \<longrightarrow> fs wt ?bp = None) \<and> (\<forall>q. q \<noteq> ?bp \<longrightarrow> fs wt q = fs ?w1 q)"
      by (rule clean_file_try_noop[OF rd1 assms(2) nb tr])
    have st: "(if do_backup then create_backup ?w1 file_path else (Inr None, ?w1))
        = (Inr None, ?w1)"
      using False by simp
    have tr': "fst (clean_file_try ?w1 file_path None) = Inr True"
      using tr t by simp
    have "clean_file w file_path do_backup False
        = (Inr True, snd (clean_file_try ?w1 file_path None))"
      by (rule clean_file_steps[OF ex st tr'])
    then have eq: "clean_file w file_path do_backup False = (Inr True, wt)"
      using tr by simp
    show ?thesis using eq t False by simp
  next
    case True
    obtain rb wb where cb: "create_backup ?w1 file_path = (rb, wb)"
      by (cases "create_backup ?w1 file_path")
    have pre: "\<not> is_file ?w1 backup_dir" "fs ?w1 (backup_path_of ?w1 file_path) \<noteq> Some Dir"
      using assms(3) True by simp_all
    have f1: "fs ?w1 file_path = Some (File f)" using f by simp
    have eff: "(\<exists>b. rb = Inr b \<and>
            (b = None \<or> b = Some ?bp \<and> fs wb ?bp = Some (File f) \<and> ?bp \<noteq> file_path))
         \<and> fs wb file_path = fs w file_path
         \<and> (\<forall>q. q \<noteq> backup_dir \<longrightarrow> q \<noteq> ?bp \<longrightarrow> fs wb q = fs w q)"
      using create_backup_effect[OF f1 pre cb] by simp
    then obtain b where b: "rb = Inr b"
      and bb: "b = None \<or> b = Some ?bp \<and> fs wb ?bp = Some (File f) \<and> ?bp \<noteq> file_path"
      by blast
    from eff have keep: "fs wb file_path = fs w file_path"
      and frame: "\<forall>q. q \<noteq> backup_dir \<longrightarrow> q \<noteq> ?bp \<longrightarrow> fs wb q = fs w q"
      by blast+
    obtain rt wt where tr: "clean_file_try wb file_path b = (rt, wt)"
      by (cases "clean_file_try wb file_path b")
    have rdb: "read_lines wb file_path = Inr lines"
      using keep assms(1) read_lines_same[of wb file_path w] by simp
    have bb': "b = None \<or>
        (\<exists>g. fs wb ?bp = Some (File g)) \<and> b = Some ?bp \<and> ?bp \<noteq> file_path"
      using bb by blast
    have t: "rt = Inr True \<and> fs wt file_path = fs wb file_path \<and>
        console wt = console wb @ [Logged Info NoChangesNeeded] \<and>
        (b = Some ?bp \<longrightarrow> fs wt ?bp = None) \<and> (\<forall>q. q \<noteq> ?bp \<longrightarrow> fs wt q = fs wb q)"
      by (rule clean_file_try_noop[OF rdb assms(2) bb' tr])
    have st: "(if do_backup then create_backup ?w1 file_path else (Inr None, ?w1))
        = (Inr b, wb)"
      using True cb b by simp
    have tr': "fst (clean_file_try wb file_path b) = Inr True"
      using tr t by simp
    have "clean_file w file_path do_backup False
        = (Inr True, snd (clean_file_try wb file_path b))"
      by (rule clean_file_steps[OF ex st tr'])
    then have eq: "clean_file w file_path do_backup False = (Inr True, wt)"
      using tr by simp
    have c2: "fs wt file_path = fs w file_path" using t keep by simp
    have c3: "last (console wt) = Logged Info NoChangesNeeded" using t by simp
    have c4: "\<forall>bp. fst (create_backup ?w1 file_path) = Inr (Some bp) \<longrightarrow> fs wt bp = None"
    proof (intro allI impI)
      fix bp assume "fst (create_backup ?w1 file_path) = Inr (Some bp)"
      then have "b = Some bp" using cb b by simp
      then have "b = Some ?bp" "bp = ?bp" using bb by auto
      then show "fs wt bp = None" using t by simp
    qed
    have c5: "\<forall>q. q \<noteq> backup_dir \<longrightarrow> q \<noteq> ?bp \<longrightarrow> fs wt q = fs w q"
      using t frame by simp
    show ?thesis unfolding eq fst_conv snd_conv using c2 c3 c4 c5 by blast
  qed
qed

theorem no_op_detection_witness:
  "read_lines (world_of [''a.txt'' \<mapsto> plain_file (''a'' @ [LF])]) ''a.txt'' = Inr [''a'' @ [LF]] \<and>
   transform [''a'' @ [LF]] = concat [''a'' @ [LF]] \<and>
   \<not> is_file (world_of [''a.txt'' \<mapsto> plain_file (''a'' @ [LF])]) backup_dir \<and>
   fst (clean_file (world_of [''a.txt'' \<mapsto> plain_file (''a'' @ [LF])]) ''a.txt'' True False)
     = Inr True \<and>
   fs (snd (clean_file (world_of [''a.txt'' \<mapsto> plain_file (''a'' @ [LF])]) ''a.txt'' True False))
      ''a.txt'' = Some (plain_file (''a'' @ [LF])) \<and>
   fs (snd (clean_file (world_of [''a.txt'' \<mapsto> plain_file (''a'' @ [LF])]) ''a.txt'' True False))
      ''.document-backups/a.txt.20250101_120000.backup'' = None"
proof -
  let ?w = "world_of [''a.txt'' \<mapsto> plain_file (''a'' @ [LF])]"
  have h1: "read_lines ?w ''a.txt'' = Inr [''a'' @ [LF]]"
    by (simp add: fs_defs)
  have h2: "transform [''a'' @ [LF]] = concat [''a'' @ [LF]]"
    by (simp add: text_defs)
  have h3: "True \<longrightarrow> \<not> is_file ?w backup_dir \<and> fs ?w (backup_path_of ?w ''a.txt'') \<noteq> Some Dir"
    by (simp add: fs_defs backup_path_of_def)
  have cb: "fst (create_backup (log ?w (Cleaning (name ''a.txt'')) Info) ''a.txt'')
      = Inr (Some ''.document-backups/a.txt.20250101_120000.backup'')"
    by (simp add: fs_defs Let_def)
  have fw: "fs ?w ''a.txt'' = Some (plain_file (''a'' @ [LF]))"
    by (simp add: world_of_def)
  from no_op_detection[OF h1 h2 h3] cb fw h1 h2 h3 show ?thesis by simp
qed

text \<open>
  Claim C10: cleaning an empty file changes it. The transform maps the empty text to one
  newline; for a zero-byte file that can be read and written, \<open>clean_file\<close> returns \<open>True\<close>,
  the file then holds exactly one newline, and "File cleaned" is reported. With backups
  on, \<open>.document-backups\<close> is taken not to be a regular file, so that the backup step
  returns.
\<close>

theorem empty_file_gets_newline:
  assumes "fs w file_path = Some (File f)" and "data f = Text []"
    and "readable f" and "writable f"
    and "do_backup \<longrightarrow> \<not> is_file w backup_dir"
  shows "cleanup [] = [LF] \<and>
         fst (clean_file w file_path do_backup False) = Inr True \<and>
         fs (snd (clean_file w file_path do_backup False)) file_path
           = Some (File (f\<lparr>data := Text [LF]\<rparr>)) \<and>
         Logged Success FileCleaned
           \<in> set (console (snd (clean_file w file_path do_backup False)))"
proof -
  let ?w1 = "log w (Cleaning (name file_path)) Info"
  have ex: "exists w file_path" "is_file w file_path"
    using assms(1) by (simp_all add: exists_def is_file_def)
  have f1: "fs ?w1 file_path = Some (File f)" using assms(1) by simp
  obtain b wb
    where st: "(if do_backup then create_backup ?w1 file_path else (Inr None, ?w1)) = (Inr b, wb)"
      and keep: "fs wb file_path = Some (File f)"
  proof (cases do_backup)
    case True
    obtain r w2 where cb: "create_backup ?w1 file_path = (r, w2)"
      by (cases "create_backup ?w1 file_path")
    have "\<not> is_file ?w1 backup_dir" using assms(5) True by simp
    from create_backup_keeps[OF f1 this cb]
    obtain b where "r = Inr b" "fs w2 file_path = Some (File f)"
      using f1 by auto
    then show ?thesis using that[of b w2] True cb by simp
  next
    case False
    then show ?thesis using that[of None ?w1] f1 by simp
  qed
  note t = clean_file_try_empty[OF keep assms(2,3,4), of b]
  have cf: "clean_file w file_path do_backup False
      = (Inr True, snd (clean_file_try wb file_path b))"
    using t by (intro clean_file_steps[OF ex st]) simp
  have "cleanup [] = [LF]" by (simp add: cleanup_def transform_Nil)
  then show ?thesis using cf t by simp
qed

theorem empty_file_gets_newline_witness:
  "fs (world_of [''a.txt'' \<mapsto> plain_file '''']) ''a.txt'' = Some (plain_file '''') \<and>
   \<not> is_file (world_of [''a.txt'' \<mapsto> plain_file '''']) backup_dir \<and>
   fst (clean_file (world_of [''a.txt'' \<mapsto> plain_file '''']) ''a.txt'' True False) = Inr True \<and>
   fs (snd (clean_file (world_of [''a.txt'' \<mapsto> plain_file '''']) ''a.txt'' True False)) ''a.txt''
     = Some (plain_file [LF])"
proof -
  let ?w = "world_of [''a.txt'' \<mapsto> plain_file '''']"
  let ?f = "\<lparr>data = Text [], readable = True, writable = True\<rparr>"
  have h1: "fs ?w ''a.txt'' = Some (File ?f)" by (simp add: world_of_def plain_file_def)
  have h2: "data ?f = Text []" and h3: "readable ?f" and h4: "writable ?f" by simp_all
  have h5: "True \<longrightarrow> \<not> is_file ?w backup_dir"
    by (simp add: world_of_def is_file_def backup_dir_def)
  from empty_file_gets_newline[OF h1 h2 h3 h4 h5] h1 h5 show ?thesis
    by (simp add: plain_file_def)
qed

subsection \<open>Validation\<close>

lemma skipped_lines_append [simp]:
  "skipped_lines (xs @ ys) = skipped_lines xs @ skipped_lines ys"
  by (simp add: skipped_lines_def)

lemma skipped_lines_log:
  "skipped_lines (console (log w m lv)) =
     skipped_lines (console w) @ (if lv = Debug then [] else skip_line (Logged lv m))"
  by (simp add: log_def skipped_lines_def)

lemma skipped_lines_if:
  "skipped_lines (console (if c then a else b))
     = (if c then skipped_lines (console a) else skipped_lines (console b))"
  by simp

text \<open>
  The loop of check 3 flags exactly the headings that \<open>skips\<close> names: it adds one error
  and one message for each, in order.
\<close>

lemma heading_loop_skips:
  "fst (heading_loop w i prev e ls) = e + length (skips prev (headings_from i ls)) \<and>
   skipped_lines (console (snd (heading_loop w i prev e ls)))
     = skipped_lines (console w) @ skips prev (headings_from i ls)"
proof (induction ls arbitrary: w i prev e)
  case Nil
  show ?case by simp
next
  case (Cons l ls)
  show ?case
  proof (cases "heading_level l")
    case None
    then show ?thesis using Cons.IH[of w "Suc i" prev e] by simp
  next
    case (Some k)
    show ?thesis
    proof (cases "k > prev + 1")
      case True
      then show ?thesis
        using Some Cons.IH[of "log w (HeadingLevelSkipped i (strip l)) Error" "Suc i" k "e + 1"]
        by (simp add: skipped_lines_log)
    next
      case False
      then show ?thesis using Some Cons.IH[of w "Suc i" k e] by simp
    qed
  qed
qed

lemma step_if:
  "(case (if c then (e + 1, log w m lv) else (e, w)) of (e', w') \<Rightarrow> F e' w')
     = F (if c then e + 1 else e) (if c then log w m lv else w)"
  by simp

text \<open>\<open>validate_content\<close> with each check written as a condition, a world and a count.\<close>

lemma validate_content_seq:
  "validate_content w0 content =
     (let c1 = search_trailing_ws content;
          w1 = (if c1 then log w0 TrailingWhitespaceFound Error else w0);
          c2 = search_blank_lines content;
          w2 = (if c2 then log w1 MultipleBlankLinesFound Error else w1);
          e2 = (if c2 then (if c1 then 0 + 1 else 0) + 1 else (if c1 then 0 + 1 else 0));
          hl = heading_loop w2 1 0 e2 (split_lf content);
          c4 = (count_fences True content > 0 \<and> count_fences True content mod 2 \<noteq> 0);
          w4 = (if c4 then log (snd hl) UnclosedCodeBlockFound Error else snd hl);
          e4 = (if c4 then fst hl + 1 else fst hl);
          c5 = (content \<noteq> [] \<and> \<not> endswith content [LF]);
          w5 = (if c5 then log w4 FileShouldEndWithNewline Warning else w4);
          n5 = (if c5 then 0 + 1 else 0);
          c6 = (strip content = []);
          w6 = (if c6 then log w5 FileIsEmpty Error else w5);
          e6 = (if c6 then e4 + 1 else e4);
          c7 = (strip content \<noteq> [] \<and> \<not> startswith (strip content) ''#'');
          w7 = (if c7 then log w6 FileShouldStartWithHeader Warning else w6);
          n7 = (if c7 then n5 + 1 else n5);
          w8 = (if e6 = 0 \<and> n7 = 0 then log w7 Valid Success
                else if e6 = 0 then log w7 (WarningCount n7) Warning
                else log w7 (ErrorAndWarningCount e6 n7) Error)
      in ((e6, n7), w8))"
  unfolding validate_content_def Let_def step_if
  by (simp only: split_beta)

lemma validate_content_skips:
  "skipped_lines (console (snd (validate_content w content)))
     = skipped_lines (console w) @ skips 0 (headings content)"
  unfolding validate_content_seq Let_def headings_def
  by (simp add: skipped_lines_if skipped_lines_log heading_loop_skips
      split del: if_split cong: if_cong)

lemma read_text_Inr:
  assumes "read_text w p = Inr content"
  shows "exists w p" and "is_file w p"
  using assms
  by (auto simp: read_text_def exists_def is_file_def split: option.splits node.splits)

lemma validate_file_read:
  assumes "read_text w p = Inr content"
  shows "validate_file w p = validate_content (log w (Validating (name p)) Info) content"
  using assms read_text_Inr[OF assms] by (simp add: validate_file_def)

lemma strip_all_space:
  assumes "\<forall>c\<in>set s. py_isspace c"
  shows "strip s = []"
proof -
  have d: "dropWhile py_isspace s = []" using assms by (simp add: dropWhile_eq_Nil_conv)
  show ?thesis unfolding strip_def lstrip_def rstrip_def d by simp
qed

lemma py_isspace_LF: "py_isspace LF"
  by (simp add: py_isspace_def)

lemma universal_newlines_space:
  "\<forall>c\<in>set s. py_isspace c \<Longrightarrow> \<forall>c\<in>set (universal_newlines s). py_isspace c"
  by (induction s rule: universal_newlines.induct) (auto simp: py_isspace_LF)

lemma split_lf_subset: "l \<in> set (split_lf s) \<Longrightarrow> set l \<subseteq> set s"
proof (induction s arbitrary: l)
  case Nil
  then show ?case by simp
next
  case (Cons c cs)
  show ?case
  proof (cases "c = LF")
    case True
    then have "l = [] \<or> l \<in> set (split_lf cs)" using Cons.prems by simp
    then show ?thesis using Cons.IH by auto
  next
    case False
    show ?thesis
    proof (cases "split_lf cs")
      case Nil
      then show ?thesis using False Cons.prems by simp
    next
      case (Cons l0 ls)
      then have "l = c # l0 \<or> l \<in> set ls" using False Cons.prems by simp
      moreover have "set l0 \<subseteq> set cs" using Cons.IH[of l0] Cons by simp
      moreover have "l \<in> set ls \<Longrightarrow> set l \<subseteq> set cs" using Cons.IH[of l] Cons by simp
      ultimately show ?thesis by auto
    qed
  qed
qed

lemma heading_level_space: "\<forall>c\<in>set l. py_isspace c \<Longrightarrow> heading_level l = None"
proof (cases l)
  case Nil
  then show ?thesis by (simp add: heading_level_def)
next
  case (Cons c cs)
  assume "\<forall>c\<in>set l. py_isspace c"
  then have "py_isspace c" using Cons by simp
  then have "c \<noteq> CHR ''#''" by (auto simp: py_isspace_def)
  then show ?thesis using Cons by (simp add: heading_level_def)
qed

lemma heading_loop_no_heading:
  "\<forall>l\<in>set ls. heading_level l = None \<Longrightarrow> heading_loop w i prev e ls = (e, w)"
  by (induction ls arbitrary: i) simp_all

lemma count_fences_none: "CHR 0x60 \<notin> set s \<Longrightarrow> count_fences bol s = 0"
  by (induction s arbitrary: bol) (auto simp: startswith_def numeral_3_eq_3)

lemma validate_content_space:
  assumes "\<forall>c\<in>set content. py_isspace c"
  shows "fst (fst (validate_content w content))
           = 1 + (if search_trailing_ws content then 1 else 0)
               + (if search_blank_lines content then 1 else 0)"
proof -
  have hl: "heading_loop w' i prev e (split_lf content) = (e, w')" for w' i prev e
  proof (rule heading_loop_no_heading, rule ballI)
    fix l assume "l \<in> set (split_lf content)"
    then have "set l \<subseteq> set content" by (rule split_lf_subset)
    then show "heading_level l = None" using assms by (intro heading_level_space) auto
  qed
  have "\<not> py_isspace (CHR 0x60)" by (simp add: py_isspace_def)
  then have "CHR 0x60 \<notin> set content" using assms by auto
  then have cf: "count_fences True content = 0" by (rule count_fences_none)
  have st: "strip content = []" using assms by (rule strip_all_space)
  show ?thesis
    unfolding validate_content_seq Let_def hl cf st by simp
qed

lemmas validate_defs =
  validate_file_def validate_content_def read_text_def heading_level_def strip_def
  lstrip_def startswith_def headings_def skipped_lines_def

text \<open>
  Claim C8 says that every zero-length and every white-space-only file gives exactly
  \<open>errors = 1\<close>. A file that holds one space gives two errors and a warning: check 1 finds
  the space at the end of the text, check 6 finds the file empty, and check 5 misses the
  final newline. The checks do not exclude one another.
\<close>

theorem whitespace_only_file_two_errors:
  "strip '' '' = [] \<and>
   fst (validate_file (world_of [''a.md'' \<mapsto> plain_file '' '']) ''a.md'') = (2, 1)"
  by (simp add: validate_defs fs_defs text_defs numeral_3_eq_3)

text \<open>
  Claim C8 as amended. A file of white space only always gets the empty-file error, and
  nothing from the heading and code-fence checks; its error count is one, plus one if
  check 1 finds a space or tab at the end of a line, plus one if check 2 finds four
  newlines with only white space between them. A zero-length file gets exactly one error
  and no warning.
\<close>

theorem empty_file_detection:
  assumes "fs w file_path = Some (File f)" and "readable f" and "data f = Text s"
    and "\<forall>c\<in>set s. py_isspace c"
  shows "fst (fst (validate_file w file_path))
           = 1 + (if search_trailing_ws (universal_newlines s) then 1 else 0)
               + (if search_blank_lines (universal_newlines s) then 1 else 0) \<and>
         1 \<le> fst (fst (validate_file w file_path)) \<and>
         (s = [] \<longrightarrow> fst (validate_file w file_path) = (1, 0))"
proof -
  have rt: "read_text w file_path = Inr (universal_newlines s)"
    using assms(1,2,3) by (simp add: read_text_def)
  have vf: "validate_file w file_path
      = validate_content (log w (Validating (name file_path)) Info) (universal_newlines s)"
    by (rule validate_file_read[OF rt])
  have sp: "\<forall>c\<in>set (universal_newlines s). py_isspace c"
    using assms(4) by (rule universal_newlines_space)
  have main: "fst (fst (validate_file w file_path))
           = 1 + (if search_trailing_ws (universal_newlines s) then 1 else 0)
               + (if search_blank_lines (universal_newlines s) then 1 else 0)"
    unfolding vf by (rule validate_content_space[OF sp])
  have zero: "fst (validate_content w' []) = (1, 0)" for w'
    by (simp add: validate_content_def heading_level_def strip_def lstrip_def rstrip_def)
  show ?thesis using main zero vf by auto
qed

theorem empty_file_detection_witness:
  "py_isspace SP \<and> py_isspace LF \<and>
   fst (fst (validate_file (world_of [''a.md'' \<mapsto> plain_file [SP, LF]]) ''a.md'')) = 2 \<and>
   fst (validate_file (world_of [''a.md'' \<mapsto> plain_file '''']) ''a.md'') = (1, 0)"
proof -
  let ?f = "\<lambda>s. \<lparr>data = Text s, readable = True, writable = True\<rparr>"
  have a1: "fs (world_of [''a.md'' \<mapsto> plain_file [SP, LF]]) ''a.md'' = Some (File (?f [SP, LF]))"
    by (simp add: world_of_def plain_file_def)
  have a2: "fs (world_of [''a.md'' \<mapsto> plain_file '''']) ''a.md'' = Some (File (?f ''''))"
    by (simp add: world_of_def plain_file_def)
  have r: "readable (?f s)" and d: "data (?f s) = Text s" for s by simp_all
  have sp: "\<forall>c\<in>set [SP, LF]. py_isspace c" by (simp add: py_isspace_def)
  have sp0: "\<forall>c\<in>set ''''. py_isspace c" by simp
  have tw: "search_trailing_ws (universal_newlines [SP, LF])" by (simp add: is_sp_tab_def)
  have bl: "\<not> search_blank_lines (universal_newlines [SP, LF])"
    by (simp add: numeral_3_eq_3)
  from empty_file_detection[OF a1 r d sp] empty_file_detection[OF a2 r d sp0] tw bl sp
  show ?thesis by simp
qed

text \<open>
  Claim C9, the heading hierarchy. The previous level starts at 0 and is set to the level
  of every heading, flagged or not: the findings of \<open>validate_file\<close> are the headings
  that exceed the level of the heading before them (0 before the first) by more than one.
  So a text whose headings have the levels 1, 2, 3 gets no such finding, and a text whose
  headings have the levels 1, 3 gets one, with the line number of the second heading.
\<close>

theorem heading_hierarchy:
  assumes "read_text w file_path = Inr content"
  shows "skipped_lines (console (snd (validate_file w file_path)))
           = skipped_lines (console w) @ skips 0 (headings content) \<and>
         (map snd (headings content) = [1, 2, 3] \<longrightarrow>
            skipped_lines (console (snd (validate_file w file_path)))
              = skipped_lines (console w)) \<and>
         (\<forall>i j. headings content = [(i, 1), (j, 3)] \<longrightarrow>
            skipped_lines (console (snd (validate_file w file_path)))
              = skipped_lines (console w) @ [j])"
proof -
  have main: "skipped_lines (console (snd (validate_file w file_path)))
           = skipped_lines (console w) @ skips 0 (headings content)"
    by (simp add: validate_file_read[OF assms] validate_content_skips skipped_lines_log)
  have a: "skips 0 hs = []" if "map snd hs = [1, 2, 3]" for hs :: "(nat \<times> nat) list"
    using that by (auto simp: map_eq_Cons_conv)
  have b: "skips 0 [(i, 1), (j, 3)] = [j]" for i j :: nat
    by simp
  show ?thesis
  proof (intro conjI impI allI)
    show "skipped_lines (console (snd (validate_file w file_path)))
           = skipped_lines (console w) @ skips 0 (headings content)" by (rule main)
  next
    assume "map snd (headings content) = [1, 2, 3]"
    then show "skipped_lines (console (snd (validate_file w file_path)))
        = skipped_lines (console w)"
      using main a by simp
  next
    fix i j assume "headings content = [(i, 1), (j, 3)]"
    then show "skipped_lines (console (snd (validate_file w file_path)))
        = skipped_lines (console w) @ [j]"
      using main b by simp
  qed
qed

theorem heading_hierarchy_witness:
  "map snd (headings (''# A'' @ [LF] @ ''## B'' @ [LF] @ ''### C'' @ [LF])) = [1, 2, 3] \<and>
   skipped_lines (console (snd (validate_file
      (world_of [''a.md'' \<mapsto> plain_file (''# A'' @ [LF] @ ''## B'' @ [LF] @ ''### C'' @ [LF])])
      ''a.md''))) = [] \<and>
   headings (''# A'' @ [LF] @ ''text'' @ [LF] @ ''### C'' @ [LF]) = [(1, 1), (3, 3)] \<and>
   skipped_lines (console (snd (validate_file
      (world_of [''a.md'' \<mapsto> plain_file (''# A'' @ [LF] @ ''text'' @ [LF] @ ''### C'' @ [LF])])
      ''a.md''))) = [3]"
proof -
  let ?d1 = "''# A'' @ [LF] @ ''## B'' @ [LF] @ ''### C'' @ [LF]"
  let ?d2 = "''# A'' @ [LF] @ ''text'' @ [LF] @ ''### C'' @ [LF]"
  have r1: "read_text (world_of [''a.md'' \<mapsto> plain_file ?d1]) ''a.md'' = Inr ?d1"
    by (simp add: read_text_def world_of_def plain_file_def)
  have r2: "read_text (world_of [''a.md'' \<mapsto> plain_file ?d2]) ''a.md'' = Inr ?d2"
    by (simp add: read_text_def world_of_def plain_file_def)
  have h1: "map snd (headings ?d1) = [1, 2, 3]"
    by (simp add: headings_def heading_level_def py_isspace_def)
  have h2: "headings ?d2 = [(1, 1), (3, 3)]"
    by (simp add: headings_def heading_level_def py_isspace_def)
  have c: "skipped_lines (console (world_of m)) = []" for m
    by (simp add: world_of_def skipped_lines_def)
  from heading_hierarchy[OF r1] h1
  have e1: "skipped_lines (console (snd (validate_file
      (world_of [''a.md'' \<mapsto> plain_file ?d1]) ''a.md'')))
      = skipped_lines (console (world_of [''a.md'' \<mapsto> plain_file ?d1]))"
    by blast
  from heading_hierarchy[OF r2] h2
  have e2: "skipped_lines (console (snd (validate_file
      (world_of [''a.md'' \<mapsto> plain_file ?d2]) ''a.md'')))
      = skipped_lines (console (world_of [''a.md'' \<mapsto> plain_file ?d2])) @ [3]"
    by blast
  show ?thesis
  proof (intro conjI)
    show "map snd (headings ?d1) = [1, 2, 3]" by (rule h1)
    show "headings ?d2 = [(1, 1), (3, 3)]" by (rule h2)
    show "skipped_lines (console (snd (validate_file
      (world_of [''a.md'' \<mapsto> plain_file ?d1]) ''a.md''))) = []"
      unfolding e1 by (rule c)
    show "skipped_lines (console (snd (validate_file
      (world_of [''a.md'' \<mapsto> plain_file ?d2]) ''a.md''))) = [3]"
      unfolding e2 c by simp
  qed
qed

end
